theory Spec2Isabelle
  imports Main
begin

section \<open>The text-to-speech page script (index.js)\<close>

text \<open>
  The script keeps three module variables (\<^verbatim>\<open>speech\<close>, \<^verbatim>\<open>voices\<close>, \<^verbatim>\<open>voiceSelect\<close>) and
  installs three event handlers: the \<^verbatim>\<open>voiceschanged\<close> handler of the speech engine, the
  \<^verbatim>\<open>change\<close> listener of the dropdown and the \<^verbatim>\<open>click\<close> listener of the button. Each
  handler is a function from the state before the event to the state after it. What the
  host hands to a handler (the voice list of \<^verbatim>\<open>getVoices()\<close>, the dropdown's current value, the
  content of the text area) is the handler's argument.
\<close>

subsection \<open>Data\<close>

text \<open>
  A voice of the platform, with the properties listed in learned.md
  (\<^verbatim>\<open>name\<close>, \<^verbatim>\<open>lang\<close>, \<^verbatim>\<open>default\<close>, \<^verbatim>\<open>localService\<close>, \<^verbatim>\<open>voiceURI\<close>).
\<close>

record voice =
  name :: string
  lang :: string
  is_default :: bool
  localService :: bool
  voiceURI :: string

text \<open>
  The utterance object. The script reads and writes only its \<^verbatim>\<open>text\<close> and \<^verbatim>\<open>voice\<close>
  properties; a \<^verbatim>\<open>voice\<close> of \<^verbatim>\<open>null\<close> is \<open>None\<close>. A freshly constructed utterance has the
  empty text and no voice.
\<close>

record utterance =
  u_text :: string
  u_voice :: "voice option"

definition blank_utterance :: utterance where
  "blank_utterance = \<lparr>u_text = [], u_voice = None\<rparr>"

text \<open>An \<^verbatim>\<open>option\<close> element of the dropdown: its label and its \<^verbatim>\<open>value\<close> attribute.\<close>

record option_elem =
  o_text :: string
  o_value :: string

definition new_Option :: "string \<Rightarrow> string \<Rightarrow> option_elem" where
  "new_Option t v = \<lparr>o_text = t, o_value = v\<rparr>"

text \<open>
  Utterances are objects: a variable and a queue entry hold a reference, and a write
  through one reference is seen through every other. The store maps references to
  utterances; \<open>next_ref\<close> is the next unused reference, so it counts the utterances
  constructed so far.
\<close>

type_synonym ref = nat

record state =
  heap :: "ref \<Rightarrow> utterance"
  next_ref :: ref
  speech :: ref
  voices :: "voice list"
  options :: "option_elem list"
  queue :: "ref list"

subsection \<open>Values of the host language\<close>

text \<open>
  \<^verbatim>\<open>new Option(voice.name, i)\<close> receives the number \<open>i\<close> where a string is expected, so
  the value attribute is the decimal numeral of \<open>i\<close>.
\<close>

definition digit_char :: "nat \<Rightarrow> char" where
  "digit_char d = char_of (48 + d)"

function ToString :: "nat \<Rightarrow> string" where
  "ToString n = (if n < 10 then [digit_char n] else ToString (n div 10) @ [digit_char (n mod 10)])"
  by pat_completeness auto
termination
  by (relation "measure (\<lambda>n. n)") auto

declare ToString.simps [simp del]

text \<open>
  What a property read of the array \<^verbatim>\<open>voices\<close> can yield: \<^verbatim>\<open>undefined\<close>, a voice (an
  element), a number (the array's \<^verbatim>\<open>length\<close>), or a function or object that the array
  inherits from the host's prototypes (\<^verbatim>\<open>at\<close>, \<^verbatim>\<open>map\<close>, \<^verbatim>\<open>constructor\<close>, ...).
\<close>

datatype jsval = Undefined | VoiceObject voice | Number nat | Inherited_Object

text \<open>The only exception a handler of the script can meet.\<close>

datatype error = TypeError

text \<open>
  Reading an array with a string key. The key is an array index when it is the canonical
  decimal numeral of a number (digits only, no leading zero), and then the read yields
  the element, or \<^verbatim>\<open>undefined\<close> beyond the end. The key \<^verbatim>\<open>length\<close> reads the number of
  elements. Any other key is looked up in the prototypes of the host, which are not part
  of the repository: \<open>inherited\<close> tells which names they define, and a name they do not
  define reads \<^verbatim>\<open>undefined\<close>. (The prototypes of the host define no numeral.)
\<close>

definition is_digit :: "char \<Rightarrow> bool" where
  "is_digit c = (48 \<le> (of_char c :: nat) \<and> (of_char c :: nat) \<le> 57)"

definition digit_val :: "char \<Rightarrow> nat" where
  "digit_val c = of_char c - 48"

definition array_index :: "string \<Rightarrow> nat option" where
  "array_index k =
     (if k \<noteq> [] \<and> list_all is_digit k \<and> (hd k \<noteq> CHR ''0'' \<or> length k = 1)
      then Some (foldl (\<lambda>a c. 10 * a + digit_val c) 0 k)
      else None)"

definition array_at :: "'a list \<Rightarrow> nat \<Rightarrow> 'a option" where
  "array_at xs i = (if i < length xs then Some (xs ! i) else None)"

definition array_get :: "(string \<Rightarrow> bool) \<Rightarrow> voice list \<Rightarrow> string \<Rightarrow> jsval" where
  "array_get inherited xs k =
     (case array_index k of
        Some i \<Rightarrow> (case array_at xs i of Some v \<Rightarrow> VoiceObject v | None \<Rightarrow> Undefined)
      | None \<Rightarrow>
          if k = ''length'' then Number (length xs)
          else if inherited k then Inherited_Object
          else Undefined)"

text \<open>
  Assigning to \<^verbatim>\<open>voiceSelect.options[i]\<close>: an index inside the collection replaces the
  option there; an index at or beyond the end appends the new option, after as many
  empty options as are needed to reach the index.
\<close>

definition set_option :: "option_elem list \<Rightarrow> nat \<Rightarrow> option_elem \<Rightarrow> option_elem list" where
  "set_option opts i x =
     (if i < length opts then opts[i := x]
      else opts @ replicate (i - length opts) (new_Option [] []) @ [x])"

text \<open>
  \<^verbatim>\<open>voiceSelect.value\<close> when the option at position \<open>k\<close> is the selected one: the value of
  that option, and the empty string when no option is selected.
\<close>

definition select_value :: "option_elem list \<Rightarrow> nat \<Rightarrow> string" where
  "select_value opts k = (if k < length opts then o_value (opts ! k) else [])"

text \<open>
  Modelled from the spec: the engine's \<^verbatim>\<open>speak\<close> (\<^verbatim>\<open>enqueue\<close>) is the platform's and not part
  of the repository. It "appends to the engine's internal FIFO queue of pending utterances"
  and "does not preempt an utterance already playing": the utterance at the head of the
  queue is the one being spoken, and a new one goes to the end.
\<close>

definition engine_speak :: "ref \<Rightarrow> ref list \<Rightarrow> ref list" where
  "engine_speak r q = q @ [r]"

subsection \<open>The script\<close>

text \<open>\<^verbatim>\<open>new SpeechSynthesisUtterance()\<close>: a fresh object at the next unused reference.\<close>

definition new_SpeechSynthesisUtterance :: "state \<Rightarrow> ref \<times> state" where
  "new_SpeechSynthesisUtterance s =
     (next_ref s,
      s\<lparr>heap := (heap s)(next_ref s := blank_utterance), next_ref := Suc (next_ref s)\<rparr>)"

text \<open>
  The top level of the script: \<^verbatim>\<open>let speech = new SpeechSynthesisUtterance(); let voices = [];\<close>
  The dropdown starts with the options of the page's markup, which is not part of the
  script and is the parameter here.
\<close>

definition startup :: "option_elem list \<Rightarrow> state" where
  "startup markup =
     (let s0 = \<lparr>heap = (\<lambda>_. blank_utterance), next_ref = 0, speech = 0, voices = [],
                options = markup, queue = []\<rparr>;
          (r, s1) = new_SpeechSynthesisUtterance s0
      in s1\<lparr>speech := r, voices := []\<rparr>)"

text \<open>\<^verbatim>\<open>speech.voice = v\<close> and \<^verbatim>\<open>speech.text = t\<close>: writes through the reference \<open>speech\<close>.\<close>

definition assign_voice :: "voice option \<Rightarrow> state \<Rightarrow> state" where
  "assign_voice v s = s\<lparr>heap := (heap s)(speech s := (heap s (speech s))\<lparr>u_voice := v\<rparr>)\<rparr>"

definition assign_text :: "string \<Rightarrow> state \<Rightarrow> state" where
  "assign_text t s = s\<lparr>heap := (heap s)(speech s := (heap s (speech s))\<lparr>u_text := t\<rparr>)\<rparr>"

text \<open>
  \<^verbatim>\<open>voices.forEach((voice, i) => (voiceSelect.options[i] = new Option(voice.name, i)))\<close>:
  the loop over the voices, with the running index.
\<close>

fun forEach_options :: "voice list \<Rightarrow> nat \<Rightarrow> option_elem list \<Rightarrow> option_elem list" where
  "forEach_options [] i opts = opts"
| "forEach_options (v # vs) i opts =
     forEach_options vs (Suc i) (set_option opts i (new_Option (name v) (ToString i)))"

text \<open>
  The \<^verbatim>\<open>voiceschanged\<close> handler; its argument is what \<^verbatim>\<open>getVoices()\<close> returns.
  \<^verbatim>\<open>voices[0]\<close> of an empty list is \<^verbatim>\<open>undefined\<close>, which the utterance stores as no voice.
\<close>

definition onvoiceschanged :: "voice list \<Rightarrow> state \<Rightarrow> state" where
  "onvoiceschanged snapshot s =
     (let s1 = s\<lparr>voices := snapshot\<rparr>;
          s2 = assign_voice (array_at (voices s1) 0) s1
      in s2\<lparr>options := forEach_options (voices s2) 0 (options s2)\<rparr>)"

text \<open>
  Assigning an arbitrary value to \<^verbatim>\<open>speech.voice\<close>. The attribute holds a voice or \<^verbatim>\<open>null\<close>:
  the browser's setter takes \<^verbatim>\<open>undefined\<close> as \<^verbatim>\<open>null\<close>, stores a voice, and refuses
  anything else with a \<^verbatim>\<open>TypeError\<close>, leaving the utterance as it was.
\<close>

definition set_voice :: "jsval \<Rightarrow> state \<Rightarrow> error + state" where
  "set_voice x s =
     (case x of
        Undefined \<Rightarrow> Inr (assign_voice None s)
      | VoiceObject v \<Rightarrow> Inr (assign_voice (Some v) s)
      | Number n \<Rightarrow> Inl TypeError
      | Inherited_Object \<Rightarrow> Inl TypeError)"

text \<open>
  The \<^verbatim>\<open>change\<close> listener, \<^verbatim>\<open>speech.voice = voices[voiceSelect.value]\<close>; its argument is
  \<^verbatim>\<open>voiceSelect.value\<close>. It ends with the new state, or with the exception of the setter.
\<close>

definition onchange :: "(string \<Rightarrow> bool) \<Rightarrow> string \<Rightarrow> state \<Rightarrow> error + state" where
  "onchange inherited key s = set_voice (array_get inherited (voices s) key) s"

text \<open>The \<^verbatim>\<open>click\<close> listener; its argument is the value of the text area.\<close>

definition onclick :: "string \<Rightarrow> state \<Rightarrow> state" where
  "onclick t s =
     (let s1 = assign_text t s
      in s1\<lparr>queue := engine_speak (speech s1) (queue s1)\<rparr>)"

text \<open>
  A session is a sequence of events. \<open>Change k\<close> is the user choosing the option at
  position \<open>k\<close> of the dropdown. An exception that leaves a listener ends that listener
  only: the page goes on with the state the listener had reached, which for the
  \<^verbatim>\<open>change\<close> listener, a single assignment, is the state before the event.
\<close>

datatype event = VoicesChanged "voice list" | Change nat | Click string

fun step :: "(string \<Rightarrow> bool) \<Rightarrow> state \<Rightarrow> event \<Rightarrow> state" where
  "step inherited s (VoicesChanged snapshot) = onvoiceschanged snapshot s"
| "step inherited s (Change k) =
     (case onchange inherited (select_value (options s) k) s of
        Inl e \<Rightarrow> s
      | Inr s' \<Rightarrow> s')"
| "step inherited s (Click t) = onclick t s"

definition run :: "(string \<Rightarrow> bool) \<Rightarrow> event list \<Rightarrow> state \<Rightarrow> state" where
  "run inherited evs s = foldl (step inherited) s evs"

text \<open>The voice the utterance of the script currently carries.\<close>

definition selected_voice :: "state \<Rightarrow> voice option" where
  "selected_voice s = u_voice (heap s (speech s))"

definition voice_in_catalog :: "state \<Rightarrow> bool" where
  "voice_in_catalog s =
     (case selected_voice s of None \<Rightarrow> True | Some v \<Rightarrow> v \<in> set (voices s))"

text \<open>
  The options the \<^verbatim>\<open>forEach\<close> loop creates for a list of voices, the first of them
  numbered \<open>i\<close>.
\<close>

fun fresh_options :: "voice list \<Rightarrow> nat \<Rightarrow> option_elem list" where
  "fresh_options [] i = []"
| "fresh_options (v # vs) i = new_Option (name v) (ToString i) # fresh_options vs (Suc i)"

text \<open>
  Whether a dropdown value reads something other than a voice or \<^verbatim>\<open>undefined\<close>: it is no
  array index and names the length or an inherited property.
\<close>

definition names_property :: "(string \<Rightarrow> bool) \<Rightarrow> string \<Rightarrow> bool" where
  "names_property inherited k = (array_index k = None \<and> (k = ''length'' \<or> inherited k))"

text \<open>The voice a dropdown value resolves to in a catalog, if any.\<close>

definition resolve :: "voice list \<Rightarrow> string \<Rightarrow> voice option" where
  "resolve xs k = (case array_index k of Some i \<Rightarrow> array_at xs i | None \<Rightarrow> None)"

text \<open>
  For the concrete scenarios below: the names an array inherits from \<^verbatim>\<open>Array.prototype\<close>
  and \<^verbatim>\<open>Object.prototype\<close> in a current browser, and three voices.
\<close>

definition prototype_names :: "string list" where
  "prototype_names =
     [''at'', ''concat'', ''constructor'', ''copyWithin'', ''entries'', ''every'', ''fill'',
      ''filter'', ''find'', ''findIndex'', ''findLast'', ''findLastIndex'', ''flat'',
      ''flatMap'', ''forEach'', ''includes'', ''indexOf'', ''join'', ''keys'',
      ''lastIndexOf'', ''map'', ''pop'', ''push'', ''reduce'', ''reduceRight'', ''reverse'',
      ''shift'', ''slice'', ''some'', ''sort'', ''splice'', ''toLocaleString'',
      ''toReversed'', ''toSorted'', ''toSpliced'', ''toString'', ''unshift'', ''values'',
      ''with'', ''hasOwnProperty'', ''isPrototypeOf'', ''propertyIsEnumerable'',
      ''valueOf'', ''__defineGetter__'', ''__defineSetter__'', ''__lookupGetter__'',
      ''__lookupSetter__'', ''__proto__'']"

definition browser_inherited :: "string \<Rightarrow> bool" where
  "browser_inherited k = List.member prototype_names k"

definition voiceA :: voice where
  "voiceA = \<lparr>name = ''A'', lang = ''en-US'', is_default = True, localService = True,
             voiceURI = ''urn:voice:A''\<rparr>"

definition voiceB :: voice where
  "voiceB = \<lparr>name = ''B'', lang = ''en-GB'', is_default = False, localService = False,
             voiceURI = ''urn:voice:B''\<rparr>"

definition voiceC :: voice where
  "voiceC = \<lparr>name = ''C'', lang = ''hi-IN'', is_default = False, localService = True,
             voiceURI = ''urn:voice:C''\<rparr>"

section \<open>Numerals as array keys\<close>

lemma is_digit_digit_char: "d < 10 \<Longrightarrow> is_digit (digit_char d)"
  by (simp add: is_digit_def digit_char_def)

lemma digit_val_digit_char: "d < 10 \<Longrightarrow> digit_val (digit_char d) = d"
  by (simp add: digit_val_def digit_char_def)

lemma digit_char_zero: "d < 10 \<Longrightarrow> digit_char d = CHR ''0'' \<Longrightarrow> d = 0"
proof -
  assume d: "d < 10" and e: "digit_char d = CHR ''0''"
  have "digit_val (digit_char d) = digit_val (CHR ''0'')"
    by (simp only: e)
  with d show "d = 0"
    by (simp add: digit_val_digit_char) (simp add: digit_val_def)
qed

lemma ToString_nonempty: "ToString n \<noteq> []"
  by (subst ToString.simps) simp

lemma ToString_zero: "ToString 0 = [digit_char 0]"
  by (subst ToString.simps) simp

lemma ToString_digits: "list_all is_digit (ToString n)"
proof (induction n rule: ToString.induct)
  case (1 n)
  show ?case
    by (subst ToString.simps) (use 1 in \<open>simp add: is_digit_digit_char\<close>)
qed

lemma ToString_foldl: "foldl (\<lambda>a c. 10 * a + digit_val c) 0 (ToString n) = n"
proof (induction n rule: ToString.induct)
  case (1 n)
  show ?case
    by (subst ToString.simps) (use 1 in \<open>simp add: digit_val_digit_char\<close>)
qed

lemma ToString_no_leading_zero: "0 < n \<Longrightarrow> hd (ToString n) \<noteq> CHR ''0''"
proof (induction n rule: ToString.induct)
  case (1 n)
  show ?case
  proof (cases "n < 10")
    case True
    with "1.prems" show ?thesis
      by (subst ToString.simps) (auto dest: digit_char_zero)
  next
    case False
    then have "0 < n div 10" by simp
    with False "1.IH" have "hd (ToString (n div 10)) \<noteq> CHR ''0''" by simp
    with False show ?thesis
      by (subst ToString.simps) (simp add: ToString_nonempty)
  qed
qed

text \<open>The numeral of \<open>n\<close> is the array index \<open>n\<close>: the key a created option holds reads
  the element its number names.\<close>

lemma array_index_ToString: "array_index (ToString n) = Some n"
proof (cases "n = 0")
  case True
  then show ?thesis
    by (simp add: ToString_zero array_index_def is_digit_digit_char digit_val_digit_char)
next
  case False
  then show ?thesis
    by (simp add: array_index_def ToString_nonempty ToString_digits ToString_foldl
        ToString_no_leading_zero)
qed

lemma array_get_ToString:
  "array_get inherited xs (ToString i) =
     (case array_at xs i of Some v \<Rightarrow> VoiceObject v | None \<Rightarrow> Undefined)"
  by (simp add: array_get_def array_index_ToString)

lemma array_get_mem: "array_get inherited xs k = VoiceObject x \<Longrightarrow> x \<in> set xs"
  by (auto simp: array_get_def array_at_def split: option.splits if_splits)



section \<open>The loop over the voices\<close>

lemma set_option_eq:
  "i \<le> length opts \<Longrightarrow> set_option opts i x = take i opts @ x # drop (Suc i) opts"
  by (cases "i < length opts") (simp_all add: set_option_def upd_conv_take_nth_drop)

lemma length_fresh_options: "length (fresh_options vs i) = length vs"
  by (induction vs arbitrary: i) simp_all

lemma nth_fresh_options:
  "k < length vs \<Longrightarrow> fresh_options vs i ! k = new_Option (name (vs ! k)) (ToString (i + k))"
proof (induction vs arbitrary: i k)
  case Nil
  then show ?case by simp
next
  case (Cons v vs)
  then show ?case by (cases k) simp_all
qed

lemma forEach_options_eq:
  "i \<le> length opts \<Longrightarrow>
   forEach_options vs i opts = take i opts @ fresh_options vs i @ drop (i + length vs) opts"
proof (induction vs arbitrary: i opts)
  case Nil
  then show ?case by simp
next
  case (Cons v vs)
  let ?x = "new_Option (name v) (ToString i)"
  let ?opts = "set_option opts i ?x"
  from Cons.prems have upd: "?opts = take i opts @ ?x # drop (Suc i) opts"
    by (rule set_option_eq)
  from Cons.prems have len: "Suc i \<le> length ?opts"
    by (simp add: upd)
  from Cons.prems have tk: "take (Suc i) ?opts = take i opts @ [?x]"
    by (simp add: upd)
  from Cons.prems have dr: "drop (Suc i + length vs) ?opts = drop (i + length (v # vs)) opts"
    by (simp add: upd add.commute)
  have "forEach_options (v # vs) i opts = forEach_options vs (Suc i) ?opts"
    by simp
  also have "\<dots> = take (Suc i) ?opts @ fresh_options vs (Suc i) @ drop (Suc i + length vs) ?opts"
    using len by (rule Cons.IH)
  also have "\<dots> = take i opts @ fresh_options (v # vs) i @ drop (i + length (v # vs)) opts"
    by (simp only: tk dr fresh_options.simps append_assoc append_Cons append_Nil)
  finally show ?case .
qed

lemma forEach_options_0:
  "forEach_options vs 0 opts = fresh_options vs 0 @ drop (length vs) opts"
  by (simp add: forEach_options_eq)

lemma forEach_options_idem:
  "forEach_options vs 0 (forEach_options vs 0 opts) = forEach_options vs 0 opts"
  by (simp add: forEach_options_0 length_fresh_options)

section \<open>What each handler does to the state\<close>

lemma onvoiceschanged_fields:
  "voices (onvoiceschanged snapshot s) = snapshot"
  "speech (onvoiceschanged snapshot s) = speech s"
  "next_ref (onvoiceschanged snapshot s) = next_ref s"
  "queue (onvoiceschanged snapshot s) = queue s"
  "options (onvoiceschanged snapshot s) = forEach_options snapshot 0 (options s)"
  "heap (onvoiceschanged snapshot s) =
     (heap s)(speech s := (heap s (speech s))\<lparr>u_voice := array_at snapshot 0\<rparr>)"
  by (simp_all add: onvoiceschanged_def Let_def assign_voice_def)

lemma assign_voice_fields:
  "voices (assign_voice v s) = voices s"
  "speech (assign_voice v s) = speech s"
  "next_ref (assign_voice v s) = next_ref s"
  "queue (assign_voice v s) = queue s"
  "options (assign_voice v s) = options s"
  "heap (assign_voice v s) = (heap s)(speech s := (heap s (speech s))\<lparr>u_voice := v\<rparr>)"
  by (simp_all add: assign_voice_def)

lemma onchange_cases:
  "onchange inherited key s = Inl TypeError
   \<or> onchange inherited key s = Inr (assign_voice None s)
   \<or> (\<exists>v \<in> set (voices s). onchange inherited key s = Inr (assign_voice (Some v) s))"
  by (cases "array_get inherited (voices s) key")
    (auto simp: onchange_def set_voice_def dest: array_get_mem)

lemma onchange_ToString:
  "onchange inherited (ToString i) s = Inr (assign_voice (array_at (voices s) i) s)"
  by (simp add: onchange_def set_voice_def array_get_ToString split: option.splits)

lemma step_Change_cases:
  "step inherited s (Change k) = s
   \<or> step inherited s (Change k) = assign_voice None s
   \<or> (\<exists>v \<in> set (voices s). step inherited s (Change k) = assign_voice (Some v) s)"
  using onchange_cases [of inherited "select_value (options s) k" s] by auto

lemma onclick_fields:
  "voices (onclick t s) = voices s"
  "speech (onclick t s) = speech s"
  "next_ref (onclick t s) = next_ref s"
  "queue (onclick t s) = queue s @ [speech s]"
  "options (onclick t s) = options s"
  "heap (onclick t s) = (heap s)(speech s := (heap s (speech s))\<lparr>u_text := t\<rparr>)"
  by (simp_all add: onclick_def Let_def assign_text_def engine_speak_def)

lemma startup_fields:
  "voices (startup markup) = []"
  "speech (startup markup) = 0"
  "next_ref (startup markup) = 1"
  "queue (startup markup) = []"
  "options (startup markup) = markup"
  "heap (startup markup) = (\<lambda>_. blank_utterance)"
  by (simp_all add: startup_def new_SpeechSynthesisUtterance_def Let_def fun_eq_iff)

lemma selected_voice_onvoiceschanged:
  "selected_voice (onvoiceschanged snapshot s) = array_at snapshot 0"
  by (simp add: selected_voice_def onvoiceschanged_fields)

lemma selected_voice_assign_voice: "selected_voice (assign_voice v s) = v"
  by (simp add: selected_voice_def assign_voice_fields)

lemma selected_voice_onclick:
  "selected_voice (onclick t s) = selected_voice s"
  by (simp add: selected_voice_def onclick_fields)

lemma array_at_mem: "array_at xs i = Some x \<Longrightarrow> x \<in> set xs"
  by (auto simp: array_at_def split: if_splits)

lemma run_snoc: "run inherited (evs @ [e]) s = step inherited (run inherited evs s) e"
  by (simp add: run_def)

lemma run_Nil: "run inherited [] s = s"
  by (simp add: run_def)

section \<open>The selected voice and the catalog\<close>

lemma voice_in_catalog_step:
  assumes "voice_in_catalog s"
  shows "voice_in_catalog (step inherited s e)"
proof (cases e)
  case (VoicesChanged snapshot)
  then show ?thesis
    by (auto simp: voice_in_catalog_def selected_voice_onvoiceschanged onvoiceschanged_fields
        split: option.splits dest: array_at_mem)
next
  case (Change k)
  with assms step_Change_cases [of inherited s k] show ?thesis
    by (auto simp del: step.simps
        simp: voice_in_catalog_def selected_voice_assign_voice assign_voice_fields
        split: option.splits)
next
  case (Click t)
  with assms show ?thesis
    by (simp add: voice_in_catalog_def selected_voice_onclick onclick_fields
        split: option.splits)
qed

lemma voice_in_catalog_run:
  "voice_in_catalog s \<Longrightarrow> voice_in_catalog (run inherited evs s)"
  by (induction evs rule: rev_induct) (simp_all add: run_snoc run_Nil voice_in_catalog_step)

lemma voice_in_catalog_startup: "voice_in_catalog (startup markup)"
  by (simp add: voice_in_catalog_def selected_voice_def startup_fields blank_utterance_def)

text \<open>
  Claim C1. Whatever the state before, the \<^verbatim>\<open>voiceschanged\<close> handler leaves the utterance
  with the first voice of the new snapshot (with no voice when the snapshot is empty), and
  the script's \<^verbatim>\<open>voices\<close> is the new snapshot. The voice held before plays no part in the
  result, so a chosen voice that is still in the new snapshot is replaced by the first one
  all the same. After the handler, and in every state a session reaches from the start of
  the script, a voice the utterance carries is a member of the latest snapshot.
\<close>

theorem reload_resets_selected_voice:
  "selected_voice (onvoiceschanged snapshot s) = (case snapshot of [] \<Rightarrow> None | v # _ \<Rightarrow> Some v)
   \<and> voices (onvoiceschanged snapshot s) = snapshot
   \<and> voice_in_catalog (onvoiceschanged snapshot s)
   \<and> voice_in_catalog (run inherited evs (startup markup))"
proof (intro conjI)
  show "selected_voice (onvoiceschanged snapshot s) = (case snapshot of [] \<Rightarrow> None | v # _ \<Rightarrow> Some v)"
    by (simp add: selected_voice_onvoiceschanged array_at_def split: list.splits)
  show "voices (onvoiceschanged snapshot s) = snapshot"
    by (simp add: onvoiceschanged_fields)
  show "voice_in_catalog (onvoiceschanged snapshot s)"
    by (auto simp: voice_in_catalog_def selected_voice_onvoiceschanged onvoiceschanged_fields
        split: option.splits dest: array_at_mem)
  show "voice_in_catalog (run inherited evs (startup markup))"
    by (rule voice_in_catalog_run) (rule voice_in_catalog_startup)
qed

text \<open>
  The catalog is A, B; the user chooses B; the catalog is reported again, unchanged. B is
  still there, and the utterance now carries A.
\<close>

theorem reload_resets_selected_voice_witness:
  "selected_voice (run browser_inherited [VoicesChanged [voiceA, voiceB], Change 1] (startup [])) = Some voiceB
   \<and> selected_voice
        (onvoiceschanged [voiceA, voiceB]
          (run browser_inherited [VoicesChanged [voiceA, voiceB], Change 1] (startup []))) = Some voiceA
   \<and> voiceB \<in> set [voiceA, voiceB]"
proof -
  have before: "selected_voice (run browser_inherited [VoicesChanged [voiceA, voiceB], Change 1] (startup []))
      = Some voiceB"
    by code_simp
  have after: "selected_voice
        (onvoiceschanged [voiceA, voiceB]
          (run browser_inherited [VoicesChanged [voiceA, voiceB], Change 1] (startup []))) = Some voiceA"
    using reload_resets_selected_voice
      [where snapshot = "[voiceA, voiceB]"
        and s = "run browser_inherited [VoicesChanged [voiceA, voiceB], Change 1] (startup [])"]
    by simp
  from before after show ?thesis by simp
qed

section \<open>Reporting the same catalog twice\<close>

text \<open>
  Claim C3. Running the \<^verbatim>\<open>voiceschanged\<close> handler a second time with the same snapshot
  changes nothing: the whole state, and with it the selected voice, is what the first run
  left. This holds for every snapshot, the empty one included.
\<close>

theorem reload_idempotent:
  "onvoiceschanged snapshot (onvoiceschanged snapshot s) = onvoiceschanged snapshot s
   \<and> selected_voice (onvoiceschanged snapshot (onvoiceschanged snapshot s)) =
       selected_voice (onvoiceschanged snapshot s)"
proof -
  have "onvoiceschanged snapshot (onvoiceschanged snapshot s) = onvoiceschanged snapshot s"
    by (simp add: onvoiceschanged_def Let_def assign_voice_def forEach_options_idem)
  then show ?thesis by simp
qed

theorem reload_idempotent_witness:
  "selected_voice (onvoiceschanged [] (onvoiceschanged [] (startup []))) = None
   \<and> selected_voice
        (onvoiceschanged [voiceB, voiceA] (onvoiceschanged [voiceB, voiceA] (startup [])))
       = Some voiceB"
proof -
  have once: "selected_voice (onvoiceschanged [] (startup [])) = None"
    "selected_voice (onvoiceschanged [voiceB, voiceA] (startup [])) = Some voiceB"
    by (simp_all add: selected_voice_onvoiceschanged array_at_def)
  from reload_idempotent [of "[]" "startup []"]
    reload_idempotent [of "[voiceB, voiceA]" "startup []"] once
  show ?thesis by simp
qed

section \<open>Speaking\<close>

text \<open>
  Claim C2. From any state and for any two texts, two clicks in a row (nothing ending in
  between) add two entries at the end of the engine's queue, the entry of the first click
  before that of the second. What was in the queue before, the utterance being spoken at
  its head included, keeps its place.
\<close>

theorem speak_twice_fifo:
  "queue (onclick t1 s) = queue s @ [speech s]
   \<and> queue (onclick t2 (onclick t1 s)) = queue s @ [speech s, speech s]
   \<and> length (queue (onclick t2 (onclick t1 s))) = length (queue s) + 2
   \<and> take (length (queue s)) (queue (onclick t2 (onclick t1 s))) = queue s"
  by (simp add: onclick_fields)

theorem speak_twice_fifo_witness:
  "queue (onclick ''two'' (onclick ''one'' (startup []))) = [0, 0]
   \<and> queue (onclick ''three'' (onclick ''two'' (onclick ''one'' (startup [])))) = [0, 0, 0]"
proof -
  have start: "queue (startup []) = []" "speech (startup []) = 0"
    by (simp_all add: startup_fields)
  have first: "queue (onclick ''one'' (startup [])) = [0]" "speech (onclick ''one'' (startup [])) = 0"
    by (simp_all add: onclick_fields startup_fields)
  from speak_twice_fifo [of "''one''" "startup []" "''two''"]
    speak_twice_fifo [of "''two''" "onclick ''one'' (startup [])" "''three''"] start first
  show ?thesis by simp
qed

text \<open>
  Claim C6. A click while the text area is empty still hands the utterance to the engine:
  the queue grows by one entry, and the text of that entry is the empty string. The
  handler has no test on the text.
\<close>

theorem empty_text_still_enqueued:
  "queue (onclick [] s) = queue s @ [speech s]
   \<and> length (queue (onclick [] s)) = Suc (length (queue s))
   \<and> u_text (heap (onclick [] s) (last (queue (onclick [] s)))) = []
   \<and> step inherited s (Click []) = onclick [] s"
  by (simp add: onclick_fields)

theorem empty_text_still_enqueued_witness:
  "queue (onclick [] (onclick ''hello'' (startup []))) = [0, 0]
   \<and> u_text (heap (onclick ''hello'' (startup [])) 0) = ''hello''
   \<and> u_text (heap (onclick [] (onclick ''hello'' (startup []))) 0) = []"
proof -
  have first: "queue (onclick ''hello'' (startup [])) = [0]"
    "speech (onclick ''hello'' (startup [])) = 0"
    "u_text (heap (onclick ''hello'' (startup [])) 0) = ''hello''"
    by (simp_all add: onclick_fields startup_fields)
  note enq = empty_text_still_enqueued [of "onclick ''hello'' (startup [])"]
  from enq first have q: "queue (onclick [] (onclick ''hello'' (startup []))) = [0, 0]"
    by simp
  have "u_text (heap (onclick [] (onclick ''hello'' (startup [])))
      (last (queue (onclick [] (onclick ''hello'' (startup [])))))) = []"
    by (rule enq [THEN conjunct2, THEN conjunct2, THEN conjunct1])
  then have "u_text (heap (onclick [] (onclick ''hello'' (startup []))) 0) = []"
    unfolding q by simp
  with q first show ?thesis by simp
qed

section \<open>Choosing a voice\<close>



lemma resolve_ToString: "resolve xs (ToString i) = array_at xs i"
  by (simp add: resolve_def array_index_ToString)


lemma not_names_property_ToString: "\<not> names_property inherited (ToString i)"
  by (simp add: names_property_def array_index_ToString)

lemma queue_step_Change: "queue (step inherited s (Change k)) = queue s"
  using step_Change_cases [of inherited s k]
  by (auto simp del: step.simps simp: assign_voice_fields)





section \<open>One utterance object\<close>

lemma step_fixed:
  "next_ref (step inherited s e) = next_ref s \<and> speech (step inherited s e) = speech s"
proof (cases e)
  case (Change k)
  with step_Change_cases [of inherited s k] show ?thesis
    by (auto simp del: step.simps simp: assign_voice_fields)
qed (simp_all add: onvoiceschanged_fields onclick_fields)

lemma run_fixed:
  "next_ref (run inherited evs s) = next_ref s \<and> speech (run inherited evs s) = speech s"
  by (induction evs rule: rev_induct) (simp_all add: run_snoc run_Nil step_fixed)

lemma step_queue: "set (queue (step inherited s e)) \<subseteq> insert (speech s) (set (queue s))"
proof (cases e)
  case (Change k)
  then show ?thesis
    by (auto simp del: step.simps simp: queue_step_Change)
qed (auto simp: onvoiceschanged_fields onclick_fields)

lemma run_queue: "set (queue (run inherited evs s)) \<subseteq> insert (speech s) (set (queue s))"
proof (induction evs rule: rev_induct)
  case Nil
  show ?case by (auto simp: run_Nil)
next
  case (snoc e evs)
  have "set (queue (step inherited (run inherited evs s) e))
      \<subseteq> insert (speech (run inherited evs s)) (set (queue (run inherited evs s)))"
    by (rule step_queue)
  with snoc show ?case
    by (auto simp: run_snoc run_fixed)
qed

text \<open>
  Claim C9. The script constructs one utterance, at its start, and none later: in every
  state a session reaches, the count of constructed utterances is one and \<^verbatim>\<open>speech\<close> still
  refers to that object. Each click hands that reference to the engine, so every entry of
  the queue is the same object; a later click writes the text and a later assignment to
  \<^verbatim>\<open>speech.voice\<close> writes the voice of that object, and the new text or voice is what every
  queued entry then holds. The \<^verbatim>\<open>change\<close> listener makes that assignment for every
  numeral: the value it resolves to, or no voice when it is out of range.
\<close>

theorem one_shared_utterance:
  "next_ref (startup markup) = 1
   \<and> next_ref (run inherited evs (startup markup)) = 1
   \<and> speech (run inherited evs (startup markup)) = 0
   \<and> queue (step inherited s (Click t)) = queue s @ [speech s]
   \<and> (\<forall>r \<in> set (queue (run inherited evs (startup markup))). r = 0)
   \<and> (\<forall>r \<in> set (queue (run inherited evs (startup markup))).
        u_text (heap (step inherited (run inherited evs (startup markup)) (Click t)) r) = t
        \<and> u_voice (heap (assign_voice v (run inherited evs (startup markup))) r) = v
        \<and> (\<exists>s'. onchange inherited (ToString i) (run inherited evs (startup markup)) = Inr s'
              \<and> u_voice (heap s' r) = array_at (voices (run inherited evs (startup markup))) i))"
proof -
  let ?s = "run inherited evs (startup markup)"
  have sp: "speech ?s = 0" and nr: "next_ref ?s = 1"
    by (simp_all add: run_fixed startup_fields)
  have q: "r = 0" if "r \<in> set (queue ?s)" for r
    using run_queue [of inherited evs "startup markup"] that by (auto simp: startup_fields)
  show ?thesis
    using sp nr q
    by (auto simp: startup_fields onclick_fields assign_voice_fields onchange_ToString)
qed

theorem one_shared_utterance_witness:
  "queue (run browser_inherited [Click ''hello''] (startup [])) = [0]
   \<and> u_text (heap (run browser_inherited [Click ''hello''] (startup [])) 0) = ''hello''
   \<and> u_text (heap (step browser_inherited (run browser_inherited [Click ''hello''] (startup []))
        (Click ''bye'')) 0) = ''bye''
   \<and> queue (step browser_inherited (run browser_inherited [Click ''hello''] (startup []))
        (Click ''bye'')) = [0, 0]
   \<and> u_voice (heap (run browser_inherited [Click ''hello''] (startup [])) 0) = None
   \<and> u_voice (heap (assign_voice (Some voiceB) (run browser_inherited [Click ''hello''] (startup []))) 0)
       = Some voiceB"
proof -
  let ?s = "run browser_inherited [Click ''hello''] (startup [])"
  have s: "queue ?s = [0]" "u_text (heap ?s 0) = ''hello''" "speech ?s = 0"
    "u_voice (heap ?s 0) = None"
    by (simp_all add: run_def onclick_fields startup_fields blank_utterance_def)
  note one = one_shared_utterance
    [where markup = "[]" and evs = "[Click ''hello'']" and s = ?s and t = "''bye''"
      and inherited = browser_inherited and v = "Some voiceB"]
  have "\<forall>r \<in> set (queue ?s). u_text (heap (step browser_inherited ?s (Click ''bye'')) r) = ''bye''
      \<and> u_voice (heap (assign_voice (Some voiceB) ?s) r) = Some voiceB"
    using one by blast
  then have a: "u_text (heap (step browser_inherited ?s (Click ''bye'')) 0) = ''bye''"
    "u_voice (heap (assign_voice (Some voiceB) ?s) 0) = Some voiceB"
    unfolding s by simp_all
  have "queue (step browser_inherited ?s (Click ''bye'')) = queue ?s @ [speech ?s]"
    by (rule one [THEN conjunct2, THEN conjunct2, THEN conjunct2, THEN conjunct1])
  then have b: "queue (step browser_inherited ?s (Click ''bye'')) = [0, 0]"
    unfolding s by simp
  from s a b show ?thesis by simp
qed

section \<open>Options left behind by a smaller catalog\<close>

text \<open>
  Claim C10. The \<^verbatim>\<open>voiceschanged\<close> handler writes the options at the positions of the new
  snapshot and removes none: the dropdown afterwards is the new options followed by the old
  ones from the snapshot's length on. So when a snapshot follows a longer one, the options
  of the longer one at the positions beyond the new snapshot are still in the dropdown,
  and choosing one of them reads the catalog out of range: the listener does not raise,
  and the utterance is left with no voice.
\<close>

theorem stale_options_survive_reload:
  "options (onvoiceschanged snapshot s) = fresh_options snapshot 0 @ drop (length snapshot) (options s)
   \<and> length (options (onvoiceschanged snapshot s)) = max (length snapshot) (length (options s))
   \<and> (\<forall>k. length snapshot \<le> k \<and> k < length (options s) \<longrightarrow>
         options (onvoiceschanged snapshot s) ! k = options s ! k)
   \<and> (\<forall>k. length snapshot \<le> k \<and> k < length earlier \<longrightarrow>
         k < length (options (onvoiceschanged snapshot (onvoiceschanged earlier s)))
         \<and> options (onvoiceschanged snapshot (onvoiceschanged earlier s)) ! k =
             new_Option (name (earlier ! k)) (ToString k)
         \<and> onchange inherited
             (select_value (options (onvoiceschanged snapshot (onvoiceschanged earlier s))) k)
             (onvoiceschanged snapshot (onvoiceschanged earlier s))
            = Inr (assign_voice None (onvoiceschanged snapshot (onvoiceschanged earlier s)))
         \<and> selected_voice
             (step inherited (onvoiceschanged snapshot (onvoiceschanged earlier s)) (Change k))
            = None)"
proof (intro conjI allI impI)
  show eq: "options (onvoiceschanged snapshot s) = fresh_options snapshot 0 @ drop (length snapshot) (options s)" for snapshot s
    by (simp add: onvoiceschanged_fields forEach_options_0)
  show "length (options (onvoiceschanged snapshot s)) = max (length snapshot) (length (options s))"
    by (simp add: eq length_fresh_options)
  show "options (onvoiceschanged snapshot s) ! k = options s ! k"
    if "length snapshot \<le> k \<and> k < length (options s)" for k
    using that by (simp add: eq nth_append length_fresh_options)
  fix k
  assume k: "length snapshot \<le> k \<and> k < length earlier"
  let ?s1 = "onvoiceschanged earlier s"
  let ?s2 = "onvoiceschanged snapshot ?s1"
  have o1: "options ?s1 ! k = new_Option (name (earlier ! k)) (ToString k)" and l1: "k < length (options ?s1)"
    using k by (simp_all add: eq nth_append length_fresh_options nth_fresh_options)
  show l2: "k < length (options ?s2)"
    using k l1 by (simp add: eq [of snapshot] length_fresh_options)
  show o2: "options ?s2 ! k = new_Option (name (earlier ! k)) (ToString k)"
    using k l1 o1 by (simp add: eq [of snapshot] nth_append length_fresh_options)
  from l2 o2 have key: "select_value (options ?s2) k = ToString k"
    by (simp add: select_value_def new_Option_def)
  from k have "array_at (voices ?s2) k = None"
    by (simp add: array_at_def onvoiceschanged_fields)
  then show quiet: "onchange inherited (select_value (options ?s2) k) ?s2 = Inr (assign_voice None ?s2)"
    unfolding key by (simp only: onchange_ToString)
  show "selected_voice (step inherited ?s2 (Change k)) = None"
    by (simp add: quiet selected_voice_assign_voice)
qed

theorem stale_options_survive_reload_witness:
  "length [voiceA] \<le> 2 \<and> 2 < length [voiceA, voiceB, voiceC]
   \<and> options (onvoiceschanged [voiceA] (onvoiceschanged [voiceA, voiceB, voiceC] (startup [])))
       = [new_Option ''A'' ''0'', new_Option ''B'' ''1'', new_Option ''C'' ''2'']
   \<and> selected_voice
        (step browser_inherited
           (onvoiceschanged [voiceA] (onvoiceschanged [voiceA, voiceB, voiceC] (startup [])))
           (Change 2)) = None"
proof -
  have opts: "options (onvoiceschanged [voiceA] (onvoiceschanged [voiceA, voiceB, voiceC] (startup [])))
       = [new_Option ''A'' ''0'', new_Option ''B'' ''1'', new_Option ''C'' ''2'']"
    by code_simp
  have "length [voiceA] \<le> 2 \<and> 2 < length [voiceA, voiceB, voiceC] \<longrightarrow>
     selected_voice
        (step browser_inherited
           (onvoiceschanged [voiceA] (onvoiceschanged [voiceA, voiceB, voiceC] (startup [])))
           (Change 2)) = None"
    using stale_options_survive_reload
      [where snapshot = "[voiceA]" and earlier = "[voiceA, voiceB, voiceC]" and s = "startup []"
        and inherited = browser_inherited]
    by blast
  with opts show ?thesis by simp
qed

end
